theory Spec2Isabelle
  imports Main
begin

section \<open>JavaScript values and built-in operations\<close>

text \<open>
  The script keeps a list of product objects, a cursor into it and a handful of page
  elements. A product's \<open>price\<close> is whatever the loaded document holds under that key:
  a number, \<open>null\<close>, or nothing at all, in which case reading it gives \<open>undefined\<close>.
  Calling a method on \<open>null\<close> or \<open>undefined\<close> throws a \<open>TypeError\<close>.
\<close>

datatype error = TypeError

datatype 'n jsval = Undefined | Null | Num 'n

text \<open>
  The number type \<open>'n\<close> and the built-in operations that the script calls
  (\<open>parseFloat\<close>, \<open>Number.prototype.toString\<close>, \<open>Number.prototype.toFixed\<close> and
  \<open>String.prototype.trim\<close>) are parameters of the model: every function below takes
  them as its first argument, and every general theorem holds for all of them.
\<close>

record 'n builtins =
  parseFloat :: "string \<Rightarrow> 'n"
  numToString :: "'n \<Rightarrow> string"
  toFixed :: "'n \<Rightarrow> nat \<Rightarrow> string"
  trim :: "string \<Rightarrow> string"

subsection \<open>Integers in template strings\<close>

definition digit_char :: "nat \<Rightarrow> char" where
  "digit_char d = char_of (48 + d)"

fun digits :: "nat \<Rightarrow> string" where
  "digits n = (if n < 10 then [digit_char n] else digits (n div 10) @ [digit_char (n mod 10)])"

declare digits.simps [simp del]

definition int_toString :: "int \<Rightarrow> string" where
  "int_toString i = (if i < 0 then CHR ''-'' # digits (nat (- i)) else digits (nat i))"

subsection \<open>White space and \<open>Array.prototype.join\<close>\<close>

text \<open>
  The ASCII white space, and the trimming of it: what \<open>String.prototype.trim\<close> does on
  ASCII text. It is used by the instance of the built-in operations further down, never by
  the script's functions themselves.
\<close>

definition isWhiteSpace :: "char \<Rightarrow> bool" where
  "isWhiteSpace c = (c = CHR 0x09 \<or> c = CHR 0x0A \<or> c = CHR 0x0B \<or> c = CHR 0x0C
     \<or> c = CHR 0x0D \<or> c = CHR 0x20)"

definition trim_ascii :: "string \<Rightarrow> string" where
  "trim_ascii t = rev (dropWhile isWhiteSpace (rev (dropWhile isWhiteSpace t)))"

fun join :: "string \<Rightarrow> string list \<Rightarrow> string" where
  "join sep [] = []"
| "join sep [x] = x"
| "join sep (x # y # ys) = x @ sep @ join sep (y # ys)"

section \<open>Products, page elements and the state of the script\<close>

record 'n product =
  id_p :: string
  title :: string
  image_p :: string
  price :: "'n jsval"
  isAvailable :: bool
  note_p :: string

text \<open>An entry of \<open>data.json\<close>: \<open>None\<close> is a key the entry does not have.\<close>

record 'n item =
  item_id :: string
  item_title :: string
  item_image :: string
  item_price :: "'n jsval"
  item_isAvailable :: "bool option"
  item_note :: "string option"

text \<open>
  \<open>showSlide\<close> creates one promise per call and stores two closures on the image
  element, \<open>() => resolve()\<close> and \<open>() => reject(...)\<close>, which belong to that promise.
  Promises are numbered in the order of their creation.
\<close>

datatype pstate = Pending | Fulfilled | Rejected

datatype handler = Resolve nat | Reject nat

record 'n state =
  productData :: "'n product list"
  slideIndex :: int
  productTitleEl_textContent :: string
  imageWrapperEl_loading :: bool
  productImageEl_src :: string
  productImageEl_alt :: string
  productImageEl_opacity :: "nat option"
  productImageEl_onload :: "handler option"
  productImageEl_onerror :: "handler option"
  productPriceEl_value :: string
  notAvailableEl_checked :: bool
  additionalNoteEl_value :: string
  slideIndexEl_textContent :: string
  statusMessageEl_textContent :: string
  statusMessageEl_color :: string
  timers :: "nat list"
  promises :: "pstate list"
  console :: "string list"
  clipboard :: string
  alerts :: "string list"

text \<open>
  A function that can throw returns \<open>Inl (e, s)\<close>, the error together with the state
  the script is left in (JavaScript does not undo the assignments made before the throw),
  or \<open>Inr\<close> with its result.
\<close>

type_synonym 'n outcome = "(error \<times> 'n state) + 'n state"

definition after :: "'n outcome \<Rightarrow> 'n state" where
  "after r = (case r of Inl (e, s) \<Rightarrow> s | Inr s \<Rightarrow> s)"

definition in_range :: "'n state \<Rightarrow> bool" where
  "in_range s = (0 \<le> slideIndex s \<and> slideIndex s < int (length (productData s)))"

section \<open>Status messages\<close>

definition clearStatusMessage :: "'n state \<Rightarrow> 'n state" where
  "clearStatusMessage s = s\<lparr>statusMessageEl_textContent := []\<rparr>"

definition displayStatusMessage :: "string \<Rightarrow> nat \<Rightarrow> 'n state \<Rightarrow> 'n state" where
  "displayStatusMessage message duration s =
     s\<lparr>statusMessageEl_textContent := message,
       statusMessageEl_color := ''#1a4d8c'',
       timers := timers s @ [duration]\<rparr>"

section \<open>\<open>showSlide\<close>\<close>

definition clear_listeners :: "'n state \<Rightarrow> 'n state" where
  "clear_listeners s = s\<lparr>productImageEl_onload := None, productImageEl_onerror := None\<rparr>"

definition register_listeners :: "nat \<Rightarrow> 'n state \<Rightarrow> 'n state" where
  "register_listeners p s =
     s\<lparr>productImageEl_onload := Some (Resolve p), productImageEl_onerror := Some (Reject p)\<rparr>"

definition start_load :: "'n product \<Rightarrow> 'n state \<Rightarrow> 'n state" where
  "start_load product s =
     s\<lparr>productImageEl_src := image_p product, productImageEl_alt := title product\<rparr>"

text \<open>\<open>new Promise(executor)\<close>: the promise is created and the executor runs at once.\<close>

definition imageLoadPromise :: "'n product \<Rightarrow> 'n state \<Rightarrow> 'n state" where
  "imageLoadPromise product s =
     (let p = length (promises s);
          s1 = s\<lparr>promises := promises s @ [Pending]\<rparr>
      in start_load product (register_listeners p (clear_listeners s1)))"

definition price_field :: "'n builtins \<Rightarrow> 'n jsval \<Rightarrow> string" where
  "price_field js v = (case v of Num x \<Rightarrow> numToString js x | _ \<Rightarrow> [])"

definition showSlide :: "'n builtins \<Rightarrow> int \<Rightarrow> 'n state \<Rightarrow> 'n outcome" where
  "showSlide js n s =
     (if productData s = [] then Inr s
      else
        let len = int (length (productData s));
            s1 = (if n \<ge> len then s\<lparr>slideIndex := 0\<rparr> else s);
            s2 = (if n < 0 then s1\<lparr>slideIndex := len - 1\<rparr> else s1);
            s3 = s2\<lparr>imageWrapperEl_loading := True\<rparr>
        in if \<not> in_range s3 then Inl (TypeError, s3)
           else
             let product = productData s3 ! nat (slideIndex s3);
                 s4 = s3\<lparr>productTitleEl_textContent := title product,
                         productPriceEl_value := price_field js (price product),
                         notAvailableEl_checked := (\<not> isAvailable product),
                         additionalNoteEl_value := note_p product,
                         slideIndexEl_textContent :=
                           ''Product '' @ int_toString (slideIndex s3 + 1) @ '' of ''
                             @ int_toString len\<rparr>
             in Inr (imageLoadPromise product (clearStatusMessage s4)))"

section \<open>The image element's events\<close>

definition placeholder :: string where
  "placeholder =
     ''data:image/svg+xml;utf8,<svg xmlns='' @ [CHR 0x22] @ ''http://www.w3.org/2000/svg''
     @ [CHR 0x22] @ '' width='' @ [CHR 0x22] @ ''100'' @ [CHR 0x22] @ '' height=''
     @ [CHR 0x22] @ ''100'' @ [CHR 0x22] @ '' viewBox='' @ [CHR 0x22] @ ''0 0 24 24''
     @ [CHR 0x22] @ ''><path fill='' @ [CHR 0x22] @ ''gray'' @ [CHR 0x22] @ '' d=''
     @ [CHR 0x22]
     @ ''M21 19V5c0-1.1-.9-2-2-2H5c-1.1 0-2 .9-2 2v14c0 1.1.9 2 2 2h14c1.1 0 2-.9 2-2zM8.5 15.5l2.5 3.01L14.5 14l4.5 6H5l3.5-4.5z''
     @ [CHR 0x22] @ ''/></svg>''"

text \<open>The \<open>then\<close> callback of \<open>showSlide\<close>.\<close>

definition onFulfilled :: "'n state \<Rightarrow> 'n state" where
  "onFulfilled s = s\<lparr>imageWrapperEl_loading := False, productImageEl_opacity := Some 1\<rparr>"

text \<open>The \<open>catch\<close> callback of \<open>showSlide\<close>.\<close>

definition onRejected :: "'n state \<Rightarrow> 'n state" where
  "onRejected s =
     displayStatusMessage ''Image failed to load!'' 4000
       (s\<lparr>console := console s @ [''Image failed to load.''],
          productImageEl_src := placeholder,
          imageWrapperEl_loading := False,
          productImageEl_opacity := Some 1\<rparr>)"

text \<open>
  Calling a stored closure settles its promise if that is still pending, and the
  callback attached to the promise runs before any other event is handled. A settled
  promise ignores further calls.
\<close>

fun settle :: "handler \<Rightarrow> 'n state \<Rightarrow> 'n state" where
  "settle (Resolve p) s =
     (if p < length (promises s) \<and> promises s ! p = Pending
      then onFulfilled (s\<lparr>promises := (promises s)[p := Fulfilled]\<rparr>) else s)"
| "settle (Reject p) s =
     (if p < length (promises s) \<and> promises s ! p = Pending
      then onRejected (s\<lparr>promises := (promises s)[p := Rejected]\<rparr>) else s)"

definition fire :: "handler option \<Rightarrow> 'n state \<Rightarrow> 'n state" where
  "fire h s = (case h of None \<Rightarrow> s | Some k \<Rightarrow> settle k s)"

section \<open>\<open>updateProductData\<close>\<close>

definition newPrice :: "'n builtins \<Rightarrow> string \<Rightarrow> 'n jsval" where
  "newPrice js v = (if v = [] then Null else Num (parseFloat js v))"

text \<open>\<open>x !== null ? x.toString() : ""\<close>\<close>

definition price_text :: "'n builtins \<Rightarrow> 'n jsval \<Rightarrow> error + string" where
  "price_text js v =
     (case v of Null \<Rightarrow> Inr [] | Num x \<Rightarrow> Inr (numToString js x) | Undefined \<Rightarrow> Inl TypeError)"

definition priceChanged :: "'n builtins \<Rightarrow> 'n jsval \<Rightarrow> 'n jsval \<Rightarrow> error + bool" where
  "priceChanged js stored new =
     (case price_text js stored of
        Inl e \<Rightarrow> Inl e
      | Inr a \<Rightarrow> (case price_text js new of Inl e \<Rightarrow> Inl e | Inr b \<Rightarrow> Inr (a \<noteq> b)))"

definition availabilityChanged :: "'n product \<Rightarrow> bool \<Rightarrow> bool" where
  "availabilityChanged currentProduct isNotAvailable =
     (isAvailable currentProduct \<noteq> (\<not> isNotAvailable))"

definition noteChanged :: "'n product \<Rightarrow> string \<Rightarrow> bool" where
  "noteChanged currentProduct newNote = (note_p currentProduct \<noteq> newNote)"

definition updated_message :: "'n product \<Rightarrow> string" where
  "updated_message currentProduct =
     ''Data for '' @ [CHR 0x22] @ title currentProduct @ [CHR 0x22] @ '' updated!''"

definition updateProductData :: "'n builtins \<Rightarrow> bool \<Rightarrow> 'n state \<Rightarrow> 'n outcome" where
  "updateProductData js showStatus s =
     (if productData s = [] then Inr s
      else if \<not> in_range s then Inl (TypeError, s)
      else
        let i = nat (slideIndex s);
            currentProduct = productData s ! i;
            np = newPrice js (productPriceEl_value s);
            isNotAvailable = notAvailableEl_checked s;
            newNote = trim js (additionalNoteEl_value s)
        in case priceChanged js (price currentProduct) np of
             Inl e \<Rightarrow> Inl (e, s)
           | Inr pc \<Rightarrow>
               if pc \<or> availabilityChanged currentProduct isNotAvailable
                     \<or> noteChanged currentProduct newNote
               then
                 let written = currentProduct\<lparr>price := np,
                                 isAvailable := (\<not> isNotAvailable), note_p := newNote\<rparr>;
                     s1 = s\<lparr>productData := (productData s)[i := written]\<rparr>;
                     s2 = (if showStatus
                           then displayStatusMessage (updated_message written) 2000 s1
                           else s1)
                 in Inr (s2\<lparr>console := console s2
                                @ [''Updated product '' @ id_p written @ '':'']\<rparr>)
               else Inr s)"

section \<open>\<open>navigateSlide\<close>\<close>

definition navigateSlide :: "'n builtins \<Rightarrow> int \<Rightarrow> 'n state \<Rightarrow> 'n outcome" where
  "navigateSlide js n s =
     (case updateProductData js False s of
        Inl es \<Rightarrow> Inl es
      | Inr s1 \<Rightarrow>
          (let s2 = s1\<lparr>slideIndex := slideIndex s1 + n\<rparr>
           in showSlide js (slideIndex s2) s2))"

section \<open>\<open>formatProductDataForSharing\<close> and \<open>copyDataToClipboard\<close>\<close>

definition nl :: string where
  "nl = [CHR 0x0A]"

definition format_product :: "'n builtins \<Rightarrow> 'n product \<Rightarrow> nat \<Rightarrow> error + string" where
  "format_product js product index =
     (let line = digits (index + 1) @ ''. '' @ title product;
          tail = (if note_p product \<noteq> [] then nl @ ''   - Note: '' @ note_p product else [])
      in if isAvailable product
         then (case price product of
                 Null \<Rightarrow> Inr (line @ nl @ ''   - Price: '' @ ''N/A'' @ tail)
               | Num x \<Rightarrow> Inr (line @ nl @ ''   - Price: '' @ toFixed js x 0 @ '' PKR'' @ tail)
               | Undefined \<Rightarrow> Inl TypeError)
         else Inr (line @ nl @ ''   - Status: *Not Available*'' @ tail))"

text \<open>\<open>Array.prototype.map\<close> with a callback that may throw: the first throw ends it.\<close>

fun map_throwing :: "('a \<Rightarrow> nat \<Rightarrow> error + 'b) \<Rightarrow> 'a list \<Rightarrow> nat \<Rightarrow> error + 'b list" where
  "map_throwing f [] index = Inr []"
| "map_throwing f (x # xs) index =
     (case f x index of
        Inl e \<Rightarrow> Inl e
      | Inr y \<Rightarrow> (case map_throwing f xs (Suc index) of Inl e \<Rightarrow> Inl e | Inr ys \<Rightarrow> Inr (y # ys)))"

definition formatProductDataForSharing :: "'n builtins \<Rightarrow> 'n state \<Rightarrow> error + string" where
  "formatProductDataForSharing js s =
     (case map_throwing (format_product js) (productData s) 0 of
        Inl e \<Rightarrow> Inl e
      | Inr formatted \<Rightarrow>
          Inr (''--- PRODUCT LIST ---'' @ nl @ nl @ join (nl @ ''---'' @ nl) formatted
               @ nl @ nl @ ''--- END ---''))"

text \<open>
  \<open>copyDataToClipboard\<close> runs up to its \<open>await\<close> in one piece; what follows the
  \<open>await\<close> runs later, once the clipboard has answered.
\<close>

definition copyDataToClipboard :: "'n builtins \<Rightarrow> 'n state \<Rightarrow> (error \<times> 'n state) + (string \<times> 'n state)" where
  "copyDataToClipboard js s =
     (case updateProductData js False s of
        Inl es \<Rightarrow> Inl es
      | Inr s1 \<Rightarrow>
          (case formatProductDataForSharing js s1 of
             Inl e \<Rightarrow> Inl (e, s1)
           | Inr dataToCopy \<Rightarrow> Inr (dataToCopy, s1)))"

definition copyDataToClipboard_resume :: "bool \<Rightarrow> string \<Rightarrow> 'n state \<Rightarrow> 'n state" where
  "copyDataToClipboard_resume written dataToCopy s =
     (if written
      then (let s1 = displayStatusMessage ''Product list copied to clipboard!'' 3000
                       (s\<lparr>clipboard := dataToCopy\<rparr>)
            in s1\<lparr>alerts := alerts s1
                     @ [''Data copied to clipboard and ready to share on WhatsApp!'']\<rparr>)
      else (let s1 = displayStatusMessage ''Error: Could not copy data to clipboard.'' 4000
                       (s\<lparr>console := console s @ [''Failed to copy data: '']\<rparr>)
            in s1\<lparr>alerts := alerts s1 @ [''Error: Could not copy data to clipboard.'']\<rparr>))"

section \<open>\<open>fetchProductData\<close>\<close>

datatype 'n response = Failed | NotOk nat | Json "'n item list"

definition normalize :: "'n item \<Rightarrow> 'n product" where
  "normalize item =
     \<lparr>id_p = item_id item, title = item_title item, image_p = item_image item,
      price = item_price item,
      isAvailable = (case item_isAvailable item of Some b \<Rightarrow> b | None \<Rightarrow> True),
      note_p = (case item_note item of Some t \<Rightarrow> t | None \<Rightarrow> [])\<rparr>"

definition load_error :: "'n state \<Rightarrow> 'n state" where
  "load_error s =
     s\<lparr>console := console s @ [''Could not fetch product data:''],
       productTitleEl_textContent := ''Error loading data. Check console (Failed to fetch).''\<rparr>"

definition fetchProductData :: "'n builtins \<Rightarrow> 'n response \<Rightarrow> 'n state \<Rightarrow> 'n state" where
  "fetchProductData js response s =
     (case response of
        Failed \<Rightarrow> load_error s
      | NotOk status \<Rightarrow> load_error s
      | Json data \<Rightarrow>
          (let s1 = s\<lparr>productData := map normalize data\<rparr>
           in if length (productData s1) > 0
              then (case showSlide js 0 s1 of Inl (e, s2) \<Rightarrow> load_error s2 | Inr s2 \<Rightarrow> s2)
              else s1\<lparr>productTitleEl_textContent := ''No products found.''\<rparr>))"

section \<open>Events\<close>

text \<open>
  Assigning \<open>src\<close> starts a request for that address, and the script never cancels one.
  When a request is answered, the image element gets a \<open>load\<close> or an \<open>error\<close> event; the
  event carries the address that was requested. The element has one \<open>onload\<close> and one
  \<open>onerror\<close> slot, and an event calls whatever closure the slot holds at that moment; the
  closures of \<open>showSlide\<close> take no argument, so they do not see which request was answered.
\<close>

datatype event =
    PrevClick
  | NextClick
  | PriceInput string
  | NotAvailableInput bool
  | NoteInput string
  | CopyClick
  | ClipboardSettled bool string
  | ImageLoad string
  | ImageError string
  | Timeout nat

fun step :: "'n builtins \<Rightarrow> event \<Rightarrow> 'n state \<Rightarrow> 'n state" where
  "step js PrevClick s = after (navigateSlide js (- 1) s)"
| "step js NextClick s = after (navigateSlide js 1 s)"
| "step js (PriceInput v) s = after (updateProductData js True (s\<lparr>productPriceEl_value := v\<rparr>))"
| "step js (NotAvailableInput b) s =
     after (updateProductData js True (s\<lparr>notAvailableEl_checked := b\<rparr>))"
| "step js (NoteInput v) s =
     after (updateProductData js True (s\<lparr>additionalNoteEl_value := v\<rparr>))"
| "step js CopyClick s =
     (case copyDataToClipboard js s of Inl (e, s1) \<Rightarrow> s1 | Inr (dataToCopy, s1) \<Rightarrow> s1)"
| "step js (ClipboardSettled written dataToCopy) s =
     copyDataToClipboard_resume written dataToCopy s"
| "step js (ImageLoad url) s = fire (productImageEl_onload s) s"
| "step js (ImageError url) s = fire (productImageEl_onerror s) s"
| "step js (Timeout k) s =
     (if k < length (timers s)
      then clearStatusMessage (s\<lparr>timers := take k (timers s) @ drop (Suc k) (timers s)\<rparr>)
      else s)"

fun run :: "'n builtins \<Rightarrow> event list \<Rightarrow> 'n state \<Rightarrow> 'n state" where
  "run js [] s = s"
| "run js (e # es) s = run js es (step js e s)"

section \<open>An instance of the built-in operations: decimal numerals\<close>

text \<open>
  For evaluation on concrete inputs the number type is instantiated with exact decimal
  fractions: \<open>Dec m e\<close> is \<open>m / 10 ^ e\<close>. The instance covers plain decimal numerals, which
  is what prices are; binary rounding, exponent notation, infinities and the sign of zero
  are not part of it. \<open>parseFloat_dec\<close> reads the longest numeral at the start of the text
  and drops trailing zeros of the fraction, \<open>toString_dec\<close> prints the digits it is given.
  Trimming is the trimming of ASCII white space; the instance is evaluated on ASCII text
  only.
\<close>

datatype decimal = NaN | Dec int nat

definition isDigit :: "char \<Rightarrow> bool" where
  "isDigit c = (48 \<le> (of_char c :: nat) \<and> (of_char c :: nat) \<le> 57)"

definition digit_val :: "char \<Rightarrow> nat" where
  "digit_val c = of_char c - 48"

definition num_of :: "string \<Rightarrow> nat" where
  "num_of ds = foldl (\<lambda>a c. 10 * a + digit_val c) 0 ds"

fun frac_digits :: "nat \<Rightarrow> nat \<Rightarrow> string" where
  "frac_digits 0 f = []"
| "frac_digits (Suc k) f = frac_digits k (f div 10) @ [digit_char (f mod 10)]"

fun strip_zeros :: "int \<Rightarrow> nat \<Rightarrow> decimal" where
  "strip_zeros m 0 = Dec m 0"
| "strip_zeros m (Suc e) = (if m mod 10 = 0 then strip_zeros (m div 10) e else Dec m (Suc e))"

definition parseFloat_dec :: "string \<Rightarrow> decimal" where
  "parseFloat_dec t =
     (let t1 = dropWhile isWhiteSpace t;
          negative = (t1 \<noteq> [] \<and> hd t1 = CHR ''-'');
          t2 = (if t1 \<noteq> [] \<and> (hd t1 = CHR ''-'' \<or> hd t1 = CHR ''+'') then tl t1 else t1);
          whole = takeWhile isDigit t2;
          t3 = dropWhile isDigit t2;
          fraction = (if t3 \<noteq> [] \<and> hd t3 = CHR ''.'' then takeWhile isDigit (tl t3) else [])
      in if whole = [] \<and> fraction = [] then NaN
         else let m = int (num_of (whole @ fraction))
              in strip_zeros (if negative then - m else m) (length fraction))"

fun toString_dec :: "decimal \<Rightarrow> string" where
  "toString_dec NaN = ''NaN''"
| "toString_dec (Dec m e) =
     (if m < 0 then ''-'' else []) @ digits (nat \<bar>m\<bar> div 10 ^ e)
     @ (if e = 0 then [] else CHR ''.'' # frac_digits e (nat \<bar>m\<bar> mod 10 ^ e))"

text \<open>
  \<open>toFixed\<close> rounds to the nearest multiple of \<open>10 ^ - f\<close>, the larger one on a tie, after
  taking the sign off.
\<close>

fun toFixed_dec :: "decimal \<Rightarrow> nat \<Rightarrow> string" where
  "toFixed_dec NaN f = ''NaN''"
| "toFixed_dec (Dec m e) f =
     (if \<bar>m\<bar> \<ge> 10 ^ 21 * 10 ^ e
      then (if m < 0 then ''-'' else []) @ toString_dec (Dec \<bar>m\<bar> e)
      else
        let n = nat ((2 * \<bar>m\<bar> * 10 ^ f + 10 ^ e) div (2 * 10 ^ e))
        in (if m < 0 then ''-'' else []) @ digits (n div 10 ^ f)
           @ (if f = 0 then [] else CHR ''.'' # frac_digits f (n mod 10 ^ f)))"

definition decimal_builtins :: "decimal builtins" where
  "decimal_builtins =
     \<lparr>parseFloat = parseFloat_dec, numToString = toString_dec, toFixed = toFixed_dec,
      trim = trim_ascii\<rparr>"

section \<open>Notions used in the statements\<close>

text \<open>The record under the cursor.\<close>

definition current :: "'n state \<Rightarrow> 'n product" where
  "current s = productData s ! nat (slideIndex s)"

text \<open>
  The record under the cursor with the values of the three widgets written into it:
  the parsed price (absent for an empty field), the inverted check box and the
  trimmed note.
\<close>

definition edited :: "'n builtins \<Rightarrow> 'n state \<Rightarrow> 'n product" where
  "edited js s =
     (current s)\<lparr>price := newPrice js (productPriceEl_value s),
                 isAvailable := (\<not> notAvailableEl_checked s),
                 note_p := trim js (additionalNoteEl_value s)\<rparr>"

text \<open>The data model's condition on prices: absent (\<open>null\<close>) or a number.\<close>

definition price_ok :: "'n product \<Rightarrow> bool" where
  "price_ok product = (price product \<noteq> Undefined)"

text \<open>
  The export as the specification words it: per record, in catalog order and numbered
  from 1, a title line, then a status line for an unavailable record or else a price line
  (the rounded price with the suffix \<open>PKR\<close>, or \<open>N/A\<close>), then a note line when the note is
  not empty; the records separated by a line \<open>---\<close>, between a header and a footer.
  \<open>round0\<close> is the rounding to 0 decimal places.
\<close>

definition spec_lines :: "('n \<Rightarrow> string) \<Rightarrow> nat \<Rightarrow> 'n product \<Rightarrow> string list" where
  "spec_lines round0 k product =
     [digits k @ ''. '' @ title product]
     @ [if isAvailable product
        then (case price product of
                Num x \<Rightarrow> ''   - Price: '' @ round0 x @ '' PKR''
              | _ \<Rightarrow> ''   - Price: N/A'')
        else ''   - Status: *Not Available*'']
     @ (if note_p product = [] then [] else [''   - Note: '' @ note_p product])"

fun spec_records :: "('n \<Rightarrow> string) \<Rightarrow> nat \<Rightarrow> 'n product list \<Rightarrow> string list" where
  "spec_records round0 k [] = []"
| "spec_records round0 k (product # rest) =
     join [CHR 0x0A] (spec_lines round0 k product) # spec_records round0 (Suc k) rest"

definition spec_export :: "('n \<Rightarrow> string) \<Rightarrow> 'n product list \<Rightarrow> string" where
  "spec_export round0 catalog =
     ''--- PRODUCT LIST ---'' @ [CHR 0x0A, CHR 0x0A]
     @ join ([CHR 0x0A] @ ''---'' @ [CHR 0x0A]) (spec_records round0 1 catalog)
     @ [CHR 0x0A, CHR 0x0A] @ ''--- END ---''"

text \<open>
  A promise is out of the image element's reach when neither of the element's two
  listeners is a closure of that promise; nothing else in the script holds such closures.
\<close>

fun promise_of :: "handler \<Rightarrow> nat" where
  "promise_of (Resolve p) = p"
| "promise_of (Reject p) = p"

definition discarded :: "nat \<Rightarrow> 'n state \<Rightarrow> bool" where
  "discarded a s =
     (map_option promise_of (productImageEl_onload s) \<noteq> Some a
      \<and> map_option promise_of (productImageEl_onerror s) \<noteq> Some a)"

text \<open>
  Promise \<open>a\<close> is untouched between \<open>s\<close> and \<open>t\<close>: it is still out of reach and in the state
  it had.
\<close>

definition untouched :: "nat \<Rightarrow> 'n state \<Rightarrow> 'n state \<Rightarrow> bool" where
  "untouched a s t =
     (a < length (promises t) \<and> discarded a t \<and> promises t ! a = promises s ! a)"

section \<open>Example pages\<close>

definition blank_page :: "'n state" where
  "blank_page =
     \<lparr>productData = [], slideIndex = 0, productTitleEl_textContent = [],
      imageWrapperEl_loading = False, productImageEl_src = [], productImageEl_alt = [],
      productImageEl_opacity = None, productImageEl_onload = None,
      productImageEl_onerror = None, productPriceEl_value = [],
      notAvailableEl_checked = False, additionalNoteEl_value = [],
      slideIndexEl_textContent = [], statusMessageEl_textContent = [],
      statusMessageEl_color = [], timers = [], promises = [], console = [],
      clipboard = [], alerts = []\<rparr>"

definition pen :: "decimal item" where
  "pen = \<lparr>item_id = ''1'', item_title = ''Pen'', item_image = ''pen.jpg'',
          item_price = Num (Dec 10 0), item_isAvailable = Some True, item_note = Some []\<rparr>"

definition cup :: "decimal item" where
  "cup = \<lparr>item_id = ''2'', item_title = ''Cup'', item_image = ''cup.jpg'',
          item_price = Null, item_isAvailable = Some False, item_note = Some ''chipped''\<rparr>"

text \<open>An entry with no \<open>price\<close>, \<open>isAvailable\<close> or \<open>note\<close> key.\<close>

definition mug :: "decimal item" where
  "mug = \<lparr>item_id = ''3'', item_title = ''Mug'', item_image = ''mug.jpg'',
          item_price = Undefined, item_isAvailable = None, item_note = None\<rparr>"

definition example_page :: "decimal state" where
  "example_page = fetchProductData decimal_builtins (Json [pen, cup]) blank_page"

definition empty_page :: "decimal state" where
  "empty_page = fetchProductData decimal_builtins (Json []) blank_page"

definition mug_page :: "decimal state" where
  "mug_page = fetchProductData decimal_builtins (Json [mug, pen]) blank_page"


text \<open>The two-record page with all three widgets of the first record edited.\<close>

definition edited_page :: "decimal state" where
  "edited_page =
     example_page\<lparr>productPriceEl_value := ''12.50'', notAvailableEl_checked := True,
                    additionalNoteEl_value := '' last one ''\<rparr>"

text \<open>The page loaded from the mug and the pen, with a note typed for the mug.\<close>

definition mug_note_page :: "decimal state" where
  "mug_note_page = mug_page\<lparr>additionalNoteEl_value := ''fragile''\<rparr>"

section \<open>Properties\<close>

subsection \<open>Printing decimals is one-to-one\<close>

lemma digit_char_props:
  assumes "d < 10"
  shows "digit_val (digit_char d) = d" "isDigit (digit_char d)"
  using assms by (simp_all add: digit_val_def digit_char_def isDigit_def)

lemma num_of_snoc: "num_of (xs @ [c]) = 10 * num_of xs + digit_val c"
  by (simp add: num_of_def)

lemma digits_nonempty: "digits n \<noteq> []"
  by (subst digits.simps) simp

lemma digits_isDigit: "c \<in> set (digits n) \<Longrightarrow> isDigit c"
proof (induction n rule: digits.induct)
  case (1 n)
  then show ?case
    by (subst (asm) (2) digits.simps) (auto simp: digit_char_props split: if_splits)
qed

lemma num_of_digits: "num_of (digits n) = n"
proof (induction n rule: digits.induct)
  case (1 n)
  show ?case
  proof (cases "n < 10")
    case True
    then show ?thesis
      by (subst digits.simps) (simp add: num_of_def digit_char_props)
  next
    case False
    with 1 show ?thesis
      by (subst digits.simps) (simp add: num_of_snoc digit_char_props)
  qed
qed

lemma length_frac_digits: "length (frac_digits e f) = e"
  by (induction e arbitrary: f) auto

lemma frac_digits_isDigit: "c \<in> set (frac_digits e f) \<Longrightarrow> isDigit c"
  by (induction e arbitrary: f) (auto simp: digit_char_props)

lemma num_of_frac_digits: "num_of (frac_digits e f) = f mod 10 ^ e"
proof (induction e arbitrary: f)
  case 0
  show ?case by (simp add: num_of_def)
next
  case (Suc e)
  have "10 * (f div 10 mod 10 ^ e) + f mod 10 = f mod (10 * 10 ^ e)"
    by (simp add: mod_mult2_eq)
  with Suc show ?case by (simp add: num_of_snoc digit_char_props)
qed

lemma takeWhile_digits:
  assumes "\<forall>c \<in> set ds. isDigit c" "rest = [] \<or> \<not> isDigit (hd rest)"
  shows "takeWhile isDigit (ds @ rest) = ds"
  using assms by (cases rest) (auto simp: takeWhile_append2)

text \<open>The digits before and after the point of a printed decimal.\<close>

lemma toString_body_inj:
  assumes "digits a @ (if e = 0 then [] else CHR ''.'' # frac_digits e f)
         = digits a' @ (if e' = 0 then [] else CHR ''.'' # frac_digits e' f')"
  shows "a = a' \<and> e = e' \<and> f mod 10 ^ e = f' mod 10 ^ e"
proof -
  let ?x = "if e = 0 then [] else CHR ''.'' # frac_digits e f"
  let ?x' = "if e' = 0 then [] else CHR ''.'' # frac_digits e' f'"
  have nd: "\<not> isDigit CHR ''.''" by (simp add: isDigit_def)
  have "takeWhile isDigit (digits a @ ?x) = digits a"
    by (rule takeWhile_digits) (auto simp: digits_isDigit nd)
  moreover have "takeWhile isDigit (digits a' @ ?x') = digits a'"
    by (rule takeWhile_digits) (auto simp: digits_isDigit nd)
  ultimately have d: "digits a = digits a'" using assms by simp
  then have a: "a = a'" by (metis num_of_digits)
  from assms d have x: "?x = ?x'" by simp
  then have e: "e = e'"
    by (metis length_frac_digits list.inject list.distinct(1))
  with x have "frac_digits e f = frac_digits e f'" by (auto split: if_splits)
  then have "f mod 10 ^ e = f' mod 10 ^ e" 
    by (metis num_of_frac_digits)
  with a e show ?thesis by simp
qed

lemma hd_digits_isDigit: "isDigit (hd (digits n))"
  using digits_nonempty [of n] digits_isDigit [of "hd (digits n)" n] by simp

lemma toString_dec_inject:
  assumes "toString_dec x = toString_dec y"
  shows "x = y"
proof (cases x; cases y)
  fix m e assume x: "x = NaN" and y: "y = Dec m e"
  have "\<not> isDigit CHR ''N''" by (simp add: isDigit_def)
  with assms x y hd_digits_isDigit [of "nat \<bar>m\<bar> div 10 ^ e"] show ?thesis
    by (cases "m < 0") (auto simp: hd_append digits_nonempty split: if_splits dest!: arg_cong [where f = hd])
next
  fix m e assume x: "y = NaN" and y: "x = Dec m e"
  have "\<not> isDigit CHR ''N''" by (simp add: isDigit_def)
  with assms x y hd_digits_isDigit [of "nat \<bar>m\<bar> div 10 ^ e"] show ?thesis
    by (cases "m < 0") (auto simp: hd_append digits_nonempty split: if_splits dest!: arg_cong [where f = hd])
next
  fix m e m' e' assume x: "x = Dec m e" and y: "y = Dec m' e'"
  let ?b = "\<lambda>m e. digits (nat \<bar>m\<bar> div 10 ^ e)
     @ (if e = 0 then [] else CHR ''.'' # frac_digits e (nat \<bar>m\<bar> mod 10 ^ e))"
  have nm: "\<not> isDigit CHR ''-''" by (simp add: isDigit_def)
  have hb: "\<And>m e. isDigit (hd (?b m e))"
    by (simp add: hd_append digits_nonempty hd_digits_isDigit)
  have sign: "(m < 0) = (m' < 0)"
  proof (rule ccontr)
    assume "(m < 0) \<noteq> (m' < 0)"
    then consider "m < 0" "\<not> m' < 0" | "\<not> m < 0" "m' < 0" by blast
    then show False
    proof cases
      case 1
      with assms x y have "CHR ''-'' # ?b m e = ?b m' e'" by simp
      then have "hd (?b m' e') = CHR ''-''" by (metis list.sel(1))
      with hb [of m' e'] nm show False by simp
    next
      case 2
      with assms x y have "?b m e = CHR ''-'' # ?b m' e'" by simp
      then have "hd (?b m e) = CHR ''-''" by (metis list.sel(1))
      with hb [of m e] nm show False by simp
    qed
  qed
  with assms x y have "?b m e = ?b m' e'" by (simp split: if_splits)
  from toString_body_inj [OF this]
  have r: "e = e'" "nat \<bar>m\<bar> div 10 ^ e = nat \<bar>m'\<bar> div 10 ^ e"
    "nat \<bar>m\<bar> mod 10 ^ e = nat \<bar>m'\<bar> mod 10 ^ e" by auto
  then have "nat \<bar>m\<bar> = nat \<bar>m'\<bar>" by (metis div_mult_mod_eq)
  with sign have "m = m'" by linarith
  with r x y show ?thesis by simp
qed (simp_all)

lemma toString_dec_nonempty: "toString_dec x \<noteq> []"
  by (cases x) (simp_all add: digits_nonempty)

lemma decimal_builtins_toString:
  "inj (numToString decimal_builtins)" "\<forall>x. numToString decimal_builtins x \<noteq> []"
  by (auto simp: decimal_builtins_def inj_def toString_dec_nonempty dest: toString_dec_inject)

subsection \<open>What the change detector and the navigation return\<close>

lemma showSlide_cursor:
  assumes "productData s \<noteq> []"
  shows "\<exists>s'. showSlide js (slideIndex s) s = Inr s'
           \<and> slideIndex s' = (if slideIndex s \<ge> int (length (productData s)) then 0
                              else if slideIndex s < 0 then int (length (productData s)) - 1
                              else slideIndex s)
           \<and> productData s' = productData s
           \<and> statusMessageEl_textContent s' = []
           \<and> timers s' = timers s"
  using assms
  by (auto simp: showSlide_def Let_def in_range_def imageLoadPromise_def start_load_def
      register_listeners_def clear_listeners_def clearStatusMessage_def)

lemma newPrice_defined: "newPrice js v \<noteq> Undefined"
  by (simp add: newPrice_def)

lemma priceChanged_same: "a \<noteq> Undefined \<Longrightarrow> priceChanged js a a = Inr False"
  by (cases a) (auto simp: priceChanged_def price_text_def)

lemma priceChanged_defined:
  "a \<noteq> Undefined \<Longrightarrow> \<exists>pc. priceChanged js a (newPrice js v) = Inr pc"
  by (cases a) (auto simp: priceChanged_def price_text_def newPrice_def)

lemma priceChanged_differs:
  assumes "inj (numToString js)" "\<forall>x. numToString js x \<noteq> []" "a \<noteq> Undefined" "b \<noteq> Undefined"
  shows "priceChanged js a b = Inr (a \<noteq> b)"
proof -
  have ne: "\<And>x. numToString js x \<noteq> []" "\<And>x. [] \<noteq> numToString js x"
    using assms(2) by (auto dest: sym)
  from assms(1,3,4) show ?thesis
    by (cases a; cases b) (auto simp: priceChanged_def price_text_def ne dest: injD)
qed

text \<open>What one call of the change detector does, in terms of the test it performs.\<close>

lemma updateProductData_result:
  assumes "productData s \<noteq> []" "in_range s"
    and "priceChanged js (price (current s)) (newPrice js (productPriceEl_value s)) = Inr pc"
  shows "updateProductData js showStatus s =
     Inr (if pc \<or> isAvailable (current s) = notAvailableEl_checked s
               \<or> note_p (current s) \<noteq> trim js (additionalNoteEl_value s)
          then (let s1 = s\<lparr>productData := (productData s)[nat (slideIndex s) := edited js s]\<rparr>;
                    s2 = (if showStatus
                          then displayStatusMessage (updated_message (current s)) 2000 s1
                          else s1)
                in s2\<lparr>console := console s2 @ [''Updated product '' @ id_p (current s) @ '':'']\<rparr>)
          else s)"
  using assms
  by (auto simp: updateProductData_def Let_def current_def edited_def availabilityChanged_def
      noteChanged_def updated_message_def)

lemma update_returns:
  assumes "productData s \<noteq> []" "in_range s" "price_ok (current s)"
  shows "\<exists>s1. updateProductData js b s = Inr s1 \<and> slideIndex s1 = slideIndex s
           \<and> length (productData s1) = length (productData s)
           \<and> timers s1 = (if b then timers s1 else timers s)
           \<and> statusMessageEl_textContent s1 = (if b then statusMessageEl_textContent s1 else statusMessageEl_textContent s)"
proof -
  from assms(3) obtain pc where
    "priceChanged js (price (current s)) (newPrice js (productPriceEl_value s)) = Inr pc"
    using priceChanged_defined unfolding price_ok_def by blast
  from updateProductData_result [OF assms(1,2) this] show ?thesis
    by (auto simp: Let_def displayStatusMessage_def)
qed

lemma navigateSlide_result:
  assumes "productData s \<noteq> []" "in_range s" "price_ok (current s)"
  shows "\<exists>s1 s'. updateProductData js False s = Inr s1 \<and> navigateSlide js n s = Inr s'
           \<and> slideIndex s' = (if slideIndex s + n \<ge> int (length (productData s)) then 0
                              else if slideIndex s + n < 0 then int (length (productData s)) - 1
                              else slideIndex s + n)
           \<and> productData s' = productData s1
           \<and> statusMessageEl_textContent s' = []
           \<and> timers s' = timers s"
proof -
  from update_returns [OF assms, of js False] obtain s1 where
    u: "updateProductData js False s = Inr s1" "slideIndex s1 = slideIndex s"
       "length (productData s1) = length (productData s)" "timers s1 = timers s" by auto
  let ?s2 = "s1\<lparr>slideIndex := slideIndex s1 + n\<rparr>"
  from u assms have ne: "productData ?s2 \<noteq> []" by auto
  from showSlide_cursor [OF ne, of js] u
  show ?thesis
    by (auto simp: navigateSlide_def Let_def)
qed

subsection \<open>Moving the cursor\<close>

text \<open>
  When the current record's price is absent (\<open>null\<close>) or a number, a step back from
  cursor \<open>0\<close> returns with the cursor at \<open>L - 1\<close>, and a step forward from cursor \<open>L - 1\<close>
  returns with the cursor at \<open>0\<close>.
\<close>

lemma single_step_wraparound:
  assumes "productData s \<noteq> []" "price_ok (current s)"
  shows "(slideIndex s = 0 \<longrightarrow>
            (\<exists>s'. navigateSlide js (- 1) s = Inr s'
                  \<and> slideIndex s' = int (length (productData s)) - 1))
       \<and> (slideIndex s = int (length (productData s)) - 1 \<longrightarrow>
            (\<exists>s'. navigateSlide js 1 s = Inr s' \<and> slideIndex s' = 0))"
proof (intro conjI impI)
  assume z: "slideIndex s = 0"
  with assms have "in_range s" by (cases "productData s") (auto simp: in_range_def)
  from navigateSlide_result [OF assms(1) this assms(2), of js "- 1"] z
  show "\<exists>s'. navigateSlide js (- 1) s = Inr s' \<and> slideIndex s' = int (length (productData s)) - 1"
    by auto
next
  assume z: "slideIndex s = int (length (productData s)) - 1"
  with assms have "in_range s" by (cases "productData s") (auto simp: in_range_def)
  from navigateSlide_result [OF assms(1) this assms(2), of js 1] z
  show "\<exists>s'. navigateSlide js 1 s = Inr s' \<and> slideIndex s' = 0"
    by auto
qed

text \<open>
  C8. Single-step wraparound fails on a catalog that the loader accepts: the first of two
  entries has no \<open>price\<close> key. From cursor \<open>0\<close> a step back should give cursor \<open>1\<close>; the
  flush at the start of \<open>navigateSlide\<close> throws instead, before the cursor is touched, and
  the page stays as it was, cursor \<open>0\<close> included.
\<close>

theorem seek_throws_without_price:
  "length (productData mug_page) = 2 \<and> slideIndex mug_page = 0
   \<and> price (current mug_page) = Undefined
   \<and> navigateSlide decimal_builtins (- 1) mug_page = Inl (TypeError, mug_page)
   \<and> slideIndex (after (navigateSlide decimal_builtins (- 1) mug_page)) = 0"
  by code_simp

lemma example_page_facts:
  "productData example_page \<noteq> []" "price_ok (current example_page)"
  "slideIndex example_page = 0" "int (length (productData example_page)) = 2"
  "in_range example_page"
  by code_simp+

text \<open>
  C2, as amended. \<open>navigateSlide\<close> adds the delta to the cursor and then applies one
  reset: a sum at or beyond the length becomes \<open>0\<close>, a negative sum becomes \<open>L - 1\<close>, any
  other sum is kept. The result always lies in \<open>[0, L)\<close>, and it is the sum modulo \<open>L\<close>
  whenever the sum lies in \<open>[-1, L]\<close>, which covers the deltas \<open>-1\<close> and \<open>+1\<close> the page uses.
\<close>

theorem seek_clamps:
  assumes "productData s \<noteq> []" "in_range s" "price_ok (current s)"
  shows "\<exists>s'. navigateSlide js n s = Inr s'
           \<and> slideIndex s' = (if slideIndex s + n \<ge> int (length (productData s)) then 0
                              else if slideIndex s + n < 0 then int (length (productData s)) - 1
                              else slideIndex s + n)
           \<and> 0 \<le> slideIndex s' \<and> slideIndex s' < int (length (productData s))
           \<and> (- 1 \<le> slideIndex s + n \<and> slideIndex s + n \<le> int (length (productData s))
                \<longrightarrow> slideIndex s' = (slideIndex s + n) mod int (length (productData s)))"
proof -
  from navigateSlide_result [OF assms, of js n] obtain s' where
    n: "navigateSlide js n s = Inr s'"
       "slideIndex s' = (if slideIndex s + n \<ge> int (length (productData s)) then 0
                              else if slideIndex s + n < 0 then int (length (productData s)) - 1
                              else slideIndex s + n)" by blast
  from assms(1) have pos: "0 < int (length (productData s))" by simp
  define L where "L = int (length (productData s))"
  define c where "c = slideIndex s + n"
  have m: "- 1 \<le> c \<and> c \<le> L \<longrightarrow> (if c \<ge> L then 0 else if c < 0 then L - 1 else c) = c mod L"
  proof
    assume b: "- 1 \<le> c \<and> c \<le> L"
    consider "c = - 1" | "c = L" | "0 \<le> c \<and> c < L" using b by linarith
    then show "(if c \<ge> L then 0 else if c < 0 then L - 1 else c) = c mod L"
    proof cases
      case 1
      have "(- 1) mod L = L - 1" using pos unfolding L_def by (simp add: zmod_minus1)
      with 1 pos show ?thesis unfolding L_def by simp
    next
      case 2 with pos show ?thesis unfolding L_def by simp
    next
      case 3 then show ?thesis by simp
    qed
  qed
  from n m pos show ?thesis unfolding L_def c_def by auto
qed

theorem seek_clamps_witness:
  "\<exists>s'. navigateSlide decimal_builtins 3 example_page = Inr s' \<and> slideIndex s' = 0"
  using seek_clamps [OF example_page_facts(1,5,2), of decimal_builtins 3]
  by (auto simp: example_page_facts)

text \<open>
  C2, as stated, fails: from cursor \<open>0\<close> on the two-record page a delta of \<open>3\<close> leaves the
  cursor at \<open>0\<close>, while \<open>(0 + 3) mod 2 = 1\<close>.
\<close>

theorem seek_not_modulo:
  "slideIndex example_page = 0 \<and> length (productData example_page) = 2
   \<and> \<not> isl (navigateSlide decimal_builtins 3 example_page)
   \<and> slideIndex (after (navigateSlide decimal_builtins 3 example_page)) = 0
   \<and> (slideIndex example_page + 3) mod int (length (productData example_page)) = 1"
  by code_simp

lemma empty_catalog:
  assumes "productData s = []"
  shows "updateProductData js b s = Inr s" "showSlide js n s = Inr s"
    "navigateSlide js n s = Inr (s\<lparr>slideIndex := slideIndex s + n\<rparr>)"
  using assms by (simp_all add: updateProductData_def showSlide_def navigateSlide_def)

text \<open>
  C4. On the page whose catalog is empty the change detector and \<open>showSlide\<close> return
  at once and leave the state as it is, and a click on the next button does not throw;
  but the click leaves the cursor at \<open>1\<close>: \<open>navigateSlide\<close> adds the delta between
  the two calls, outside their guards for the empty catalog.
\<close>

theorem navigate_empty_catalog:
  "productData empty_page = [] \<and> slideIndex empty_page = 0
   \<and> updateProductData decimal_builtins True empty_page = Inr empty_page
   \<and> showSlide decimal_builtins 1 empty_page = Inr empty_page
   \<and> navigateSlide decimal_builtins 1 empty_page = Inr (empty_page\<lparr>slideIndex := 1\<rparr>)
   \<and> slideIndex (after (navigateSlide decimal_builtins 1 empty_page)) = 1
   \<and> empty_page\<lparr>slideIndex := 1\<rparr> \<noteq> empty_page"
proof -
  have e: "productData empty_page = []" and z: "slideIndex empty_page = 0" by code_simp+
  have "slideIndex (empty_page\<lparr>slideIndex := 1\<rparr>) \<noteq> slideIndex empty_page"
    by (simp add: z)
  then have "empty_page\<lparr>slideIndex := 1\<rparr> \<noteq> empty_page" by metis
  with e z empty_catalog [OF e, of decimal_builtins] show ?thesis
    by (simp add: after_def)
qed

subsection \<open>The change detector\<close>

text \<open>
  C5. Idempotence of the change detector. If a call returns state \<open>s1\<close>, a second call
  on \<open>s1\<close> (the widgets are untouched by the first) returns \<open>s1\<close> itself: no write, no
  status message, no timer, no log line. The first call changes nothing either when the
  widget values already equal the stored record. If the first call throws, the state is
  as before and the second call throws in the same way.
\<close>

theorem change_detector_idempotent:
  "(\<forall>s1. updateProductData js showStatus s = Inr s1 \<longrightarrow>
        updateProductData js showStatus' s1 = Inr s1
        \<and> (edited js s = current s \<longrightarrow> s1 = s))
   \<and> (\<forall>e s1. updateProductData js showStatus s = Inl (e, s1) \<longrightarrow>
        s1 = s \<and> updateProductData js showStatus' s = Inl (e, s))"
proof (intro conjI allI impI)
  fix s1 assume u: "updateProductData js showStatus s = Inr s1"
  show "updateProductData js showStatus' s1 = Inr s1"
  proof (cases "productData s = []")
    case True with u show ?thesis by (auto simp: updateProductData_def)
  next
    case ne: False
    show ?thesis
    proof (cases "in_range s")
      case False with ne u show ?thesis by (simp add: updateProductData_def)
    next
      case True
      let ?np = "newPrice js (productPriceEl_value s)"
      from u ne True obtain pc where pc: "priceChanged js (price (current s)) ?np = Inr pc"
        by (auto simp: updateProductData_def Let_def current_def split: sum.splits)
      note r = updateProductData_result [OF ne True pc, of showStatus]
      show ?thesis
      proof (cases "pc \<or> isAvailable (current s) = notAvailableEl_checked s
                      \<or> note_p (current s) \<noteq> trim js (additionalNoteEl_value s)")
        case False
        with u r have "s1 = s" by simp
        with False ne True pc updateProductData_result [OF ne True pc, of showStatus']
        show ?thesis by simp
      next
        case ch: True
        from True have i: "nat (slideIndex s) < length (productData s)"
          by (auto simp: in_range_def)
        from ch u r have s1: "s1 = (let sa = s\<lparr>productData := (productData s)[nat (slideIndex s) := edited js s]\<rparr>;
                    sb = (if showStatus
                          then displayStatusMessage (updated_message (current s)) 2000 sa
                          else sa)
                in sb\<lparr>console := console sb @ [''Updated product '' @ id_p (current s) @ '':'']\<rparr>)"
          by simp
        have a: "productData s1 \<noteq> []" "in_range s1" "current s1 = edited js s"
          "productPriceEl_value s1 = productPriceEl_value s"
          "notAvailableEl_checked s1 = notAvailableEl_checked s"
          "additionalNoteEl_value s1 = additionalNoteEl_value s"
          using ne True i
          by (simp_all add: s1 Let_def in_range_def displayStatusMessage_def current_def)
        have same: "priceChanged js (price (current s1)) (newPrice js (productPriceEl_value s1)) = Inr False"
          using priceChanged_same [of "newPrice js (productPriceEl_value s)" js]
            newPrice_defined [of js "productPriceEl_value s"]
          by (simp add: a edited_def)
        from updateProductData_result [OF a(1,2) same, of showStatus']
        show ?thesis by (simp add: a edited_def)
      qed
    qed
  qed
next
  fix s1
  assume u: "updateProductData js showStatus s = Inr s1"
    and eq: "edited js s = current s"
  from eq have "price (edited js s) = price (current s)"
    "isAvailable (edited js s) = isAvailable (current s)"
    "note_p (edited js s) = note_p (current s)" by simp_all
  then have f: "price (current s) = newPrice js (productPriceEl_value s)"
    "isAvailable (current s) = (\<not> notAvailableEl_checked s)"
    "note_p (current s) = trim js (additionalNoteEl_value s)"
    by (simp_all add: edited_def)
  from f(1) have "priceChanged js (price (current s)) (newPrice js (productPriceEl_value s)) = Inr False"
    using priceChanged_same [of "newPrice js (productPriceEl_value s)" js] newPrice_defined [of js]
    by simp
  with u f show "s1 = s"
    by (auto simp: updateProductData_def Let_def current_def availabilityChanged_def
        noteChanged_def split: if_splits)
next
  fix e s1 assume u: "updateProductData js showStatus s = Inl (e, s1)"
  then show "s1 = s"
    by (auto simp: updateProductData_def Let_def split: if_splits sum.splits)
  from u show "updateProductData js showStatus' s = Inl (e, s)"
    by (auto simp: updateProductData_def Let_def split: if_splits sum.splits)
qed

lemma after_Inr: "\<not> isl r \<Longrightarrow> r = Inr (after r)"
  by (cases r) (auto simp: after_def)

theorem change_detector_idempotent_witness:
  "note_p (current (after (updateProductData decimal_builtins True edited_page))) = ''last one''
   \<and> statusMessageEl_textContent (after (updateProductData decimal_builtins True edited_page)) = ''Data for '' @ [CHR 0x22] @ ''Pen'' @ [CHR 0x22] @ '' updated!''
   \<and> updateProductData decimal_builtins True
        (after (updateProductData decimal_builtins True edited_page))
      = Inr (after (updateProductData decimal_builtins True edited_page))"
proof -
  have "\<not> isl (updateProductData decimal_builtins True edited_page)" by code_simp
  then have r: "updateProductData decimal_builtins True edited_page
                = Inr (after (updateProductData decimal_builtins True edited_page))"
    by (rule after_Inr)
  have n: "note_p (current (after (updateProductData decimal_builtins True edited_page))) = ''last one''"
   "statusMessageEl_textContent (after (updateProductData decimal_builtins True edited_page)) = ''Data for '' @ [CHR 0x22] @ ''Pen'' @ [CHR 0x22] @ '' updated!''"
    by code_simp+
  from change_detector_idempotent [of decimal_builtins True edited_page True] r n
  show ?thesis by blast
qed

text \<open>
  What the change detector does when the current record's price is absent (\<open>null\<close>) or a
  number, and \<open>Number.prototype.toString\<close> gives different, non-empty texts for different
  numbers: it commits if and only if one of the three normalised widget values differs
  from the stored field. A commit writes all three fields at once; the status line reads
  \<open>Data for "<title>" updated!\<close> exactly when a commit happens in interactive mode.
\<close>

lemma change_detector_commit:
  assumes "inj (numToString js)" "\<forall>x. numToString js x \<noteq> []"
    and "productData s \<noteq> []" "in_range s" "price_ok (current s)"
  shows "\<exists>s'. updateProductData js showStatus s = Inr s'
     \<and> (if price (current s) \<noteq> newPrice js (productPriceEl_value s)
            \<or> isAvailable (current s) \<noteq> (\<not> notAvailableEl_checked s)
            \<or> note_p (current s) \<noteq> trim js (additionalNoteEl_value s)
         then s' \<noteq> s
            \<and> productData s' = (productData s)[nat (slideIndex s) := edited js s]
            \<and> (if showStatus
                then statusMessageEl_textContent s'
                       = ''Data for '' @ [CHR 0x22] @ title (current s) @ [CHR 0x22] @ '' updated!''
                   \<and> timers s' = timers s @ [2000]
                else statusMessageEl_textContent s' = statusMessageEl_textContent s
                   \<and> timers s' = timers s)
         else s' = s)"
proof -
  let ?np = "newPrice js (productPriceEl_value s)"
  have pc: "priceChanged js (price (current s)) ?np = Inr (price (current s) \<noteq> ?np)"
    using assms(1,2,5) newPrice_defined [of js "productPriceEl_value s"]
    by (intro priceChanged_differs) (simp_all add: price_ok_def)
  note r = updateProductData_result [OF assms(3,4) pc, of showStatus]
  show ?thesis
  proof (cases "price (current s) \<noteq> ?np
            \<or> isAvailable (current s) \<noteq> (\<not> notAvailableEl_checked s)
            \<or> note_p (current s) \<noteq> trim js (additionalNoteEl_value s)")
    case False
    with r show ?thesis by auto
  next
    case True
    from assms(4) have i: "nat (slideIndex s) < length (productData s)"
      by (auto simp: in_range_def)
    from True have "edited js s \<noteq> current s"
      unfolding edited_def
      by (metis product.select_convs(4,5,6) product.update_convs(4,5,6) product.surjective)
    with i have neq: "(productData s)[nat (slideIndex s) := edited js s] \<noteq> productData s"
      by (metis current_def nth_list_update_eq)
    define s' where "s' = (let s1 = s\<lparr>productData := (productData s)[nat (slideIndex s) := edited js s]\<rparr>;
                    s2 = (if showStatus
                          then displayStatusMessage (updated_message (current s)) 2000 s1
                          else s1)
                in s2\<lparr>console := console s2 @ [''Updated product '' @ id_p (current s) @ '':'']\<rparr>)"
    from True r have u: "updateProductData js showStatus s = Inr s'"
      unfolding s'_def by auto
    have pd: "productData s' = (productData s)[nat (slideIndex s) := edited js s]"
      by (simp add: s'_def Let_def displayStatusMessage_def)
    with neq have d: "s' \<noteq> s" by auto
    have st: "showStatus \<Longrightarrow> statusMessageEl_textContent s'
                       = ''Data for '' @ [CHR 0x22] @ title (current s) @ [CHR 0x22] @ '' updated!''
                   \<and> timers s' = timers s @ [2000]"
      "\<not> showStatus \<Longrightarrow> statusMessageEl_textContent s' = statusMessageEl_textContent s
                   \<and> timers s' = timers s"
      by (simp_all add: s'_def Let_def displayStatusMessage_def updated_message_def)
    from True u pd d st show ?thesis by auto
  qed
qed

text \<open>
  C6. The change detector does not commit on every difference. On the page loaded from
  an entry without a \<open>price\<close> key, with a note typed into the note field, the trimmed note
  differs from the stored one; the call throws while it compares the prices, in either
  mode: nothing is written and no status message is shown.
\<close>

theorem commit_throws_without_price:
  "price (current mug_note_page) = Undefined
   \<and> note_p (current mug_note_page) = []
   \<and> trim decimal_builtins (additionalNoteEl_value mug_note_page) = ''fragile''
   \<and> updateProductData decimal_builtins True mug_note_page = Inl (TypeError, mug_note_page)
   \<and> updateProductData decimal_builtins False mug_note_page = Inl (TypeError, mug_note_page)
   \<and> statusMessageEl_textContent mug_note_page = []"
  by code_simp




subsection \<open>Flushing before a move and before an export\<close>

lemma format_productData:
  "productData a = productData b
   \<Longrightarrow> formatProductDataForSharing js a = formatProductDataForSharing js b"
  by (simp add: formatProductDataForSharing_def)

lemma silent_flush:
  assumes "inj (numToString js)" "\<forall>x. numToString js x \<noteq> []"
    and "productData s \<noteq> []" "in_range s" "price_ok (current s)"
  shows "\<exists>s1. updateProductData js False s = Inr s1
           \<and> productData s1 = (productData s)[nat (slideIndex s) := edited js s]
           \<and> slideIndex s1 = slideIndex s
           \<and> statusMessageEl_textContent s1 = statusMessageEl_textContent s
           \<and> timers s1 = timers s"
proof -
  let ?np = "newPrice js (productPriceEl_value s)"
  have pc: "priceChanged js (price (current s)) ?np = Inr (price (current s) \<noteq> ?np)"
    using assms(1,2,5) newPrice_defined [of js "productPriceEl_value s"]
    by (intro priceChanged_differs) (simp_all add: price_ok_def)
  note r = updateProductData_result [OF assms(3,4) pc, of False]
  show ?thesis
  proof (cases "price (current s) \<noteq> ?np
            \<or> isAvailable (current s) = notAvailableEl_checked s
            \<or> note_p (current s) \<noteq> trim js (additionalNoteEl_value s)")
    case True
    with r show ?thesis by (auto simp: Let_def)
  next
    case False
    then have "edited js s = current s" by (simp add: edited_def)
    then have "(productData s)[nat (slideIndex s) := edited js s] = productData s"
      by (simp add: current_def)
    with False r show ?thesis by auto
  qed
qed

text \<open>
  Under the same conditions pending edits are flushed silently before the cursor moves
  and before the export is formatted: after \<open>navigateSlide\<close> the catalog is the old one
  with the widget values written into the record that was current, no status message is
  shown and no timer was started; \<open>copyDataToClipboard\<close> formats exactly that catalog.
\<close>

lemma edits_flushed_first:
  assumes "inj (numToString js)" "\<forall>x. numToString js x \<noteq> []"
    and "productData s \<noteq> []" "in_range s" "price_ok (current s)"
  shows "(\<exists>s'. navigateSlide js n s = Inr s'
            \<and> productData s' = (productData s)[nat (slideIndex s) := edited js s]
            \<and> statusMessageEl_textContent s' = [] \<and> timers s' = timers s)
     \<and> (\<exists>s1. productData s1 = (productData s)[nat (slideIndex s) := edited js s]
            \<and> slideIndex s1 = slideIndex s
            \<and> statusMessageEl_textContent s1 = statusMessageEl_textContent s
            \<and> timers s1 = timers s
            \<and> copyDataToClipboard js s
                = (case formatProductDataForSharing js
                         (s\<lparr>productData := (productData s)[nat (slideIndex s) := edited js s]\<rparr>) of
                     Inl e \<Rightarrow> Inl (e, s1)
                   | Inr dataToCopy \<Rightarrow> Inr (dataToCopy, s1)))"
proof -
  from silent_flush [OF assms] obtain s1 where
    f: "updateProductData js False s = Inr s1"
       "productData s1 = (productData s)[nat (slideIndex s) := edited js s]"
       "slideIndex s1 = slideIndex s"
       "statusMessageEl_textContent s1 = statusMessageEl_textContent s"
       "timers s1 = timers s" by blast
  from navigateSlide_result [OF assms(3,4,5), of js n] f(1,2)
  have nav: "\<exists>s'. navigateSlide js n s = Inr s'
            \<and> productData s' = (productData s)[nat (slideIndex s) := edited js s]
            \<and> statusMessageEl_textContent s' = [] \<and> timers s' = timers s"
    by auto
  have "formatProductDataForSharing js s1 = formatProductDataForSharing js
                         (s\<lparr>productData := (productData s)[nat (slideIndex s) := edited js s]\<rparr>)"
    by (rule format_productData) (simp add: f)
  with f have "copyDataToClipboard js s
                = (case formatProductDataForSharing js
                         (s\<lparr>productData := (productData s)[nat (slideIndex s) := edited js s]\<rparr>) of
                     Inl e \<Rightarrow> Inl (e, s1)
                   | Inr dataToCopy \<Rightarrow> Inr (dataToCopy, s1))"
    by (simp add: copyDataToClipboard_def)
  with f nav show ?thesis by blast
qed

text \<open>
  C9. The flush does not always carry the pending edit over. On the page loaded from an
  entry without a \<open>price\<close> key, with a note typed into the note field, the flush throws:
  \<open>navigateSlide\<close> ends before the cursor moves and \<open>copyDataToClipboard\<close> ends before
  anything is formatted, and the typed note is in neither the catalog nor an export.
\<close>

theorem flush_throws_without_price:
  "slideIndex mug_note_page = 0
   \<and> additionalNoteEl_value mug_note_page = ''fragile''
   \<and> note_p (current mug_note_page) = []
   \<and> navigateSlide decimal_builtins 1 mug_note_page = Inl (TypeError, mug_note_page)
   \<and> copyDataToClipboard decimal_builtins mug_note_page = Inl (TypeError, mug_note_page)"
  by code_simp

subsection \<open>The export\<close>

text \<open>
  In the decimal instance \<open>toFixed(0)\<close> of a number that is not negative and below
  \<open>10 ^ 21\<close> prints an integer nearest to it.
\<close>

lemma toFixed_dec_rounds:
  assumes "0 \<le> m" "m < 10 ^ 21 * 10 ^ e"
  shows "\<exists>k\<ge>0. toFixed_dec (Dec m e) 0 = digits (nat k)
           \<and> \<bar>2 * (k * 10 ^ e) - 2 * m\<bar> \<le> 10 ^ e"
proof -
  define d :: int where "d = 2 * 10 ^ e"
  define k where "k = (2 * m + 10 ^ e) div d"
  have dpos: "0 < d" by (simp add: d_def)
  from assms(1) dpos have k0: "0 \<le> k" unfolding k_def by (simp add: pos_imp_zdiv_nonneg_iff)
  have r: "0 \<le> (2 * m + 10 ^ e) mod d" "(2 * m + 10 ^ e) mod d < d"
    using dpos by simp_all
  have "d * k + (2 * m + 10 ^ e) mod d = 2 * m + 10 ^ e"
    unfolding k_def by (rule mult_div_mod_eq)
  with r have "\<bar>d * k - 2 * m\<bar> \<le> 10 ^ e" unfolding d_def by linarith
  then have b: "\<bar>2 * (k * 10 ^ e) - 2 * m\<bar> \<le> 10 ^ e"
    by (simp add: d_def mult.commute mult.left_commute)
  from assms have "toFixed_dec (Dec m e) 0 = digits (nat k)"
    by (simp add: k_def d_def Let_def)
  with k0 b show ?thesis by blast
qed

lemma format_product_spec:
  assumes "isAvailable product \<longrightarrow> price_ok product"
  shows "format_product js product k
         = Inr (join [CHR 0x0A] (spec_lines (\<lambda>x. toFixed js x 0) (Suc k) product))"
  using assms
  by (cases "price product")
     (auto simp: format_product_def spec_lines_def price_ok_def nl_def Let_def)

lemma map_throwing_spec:
  assumes "list_all (\<lambda>p. isAvailable p \<longrightarrow> price_ok p) catalog"
  shows "map_throwing (format_product js) catalog k
         = Inr (spec_records (\<lambda>x. toFixed js x 0) (Suc k) catalog)"
  using assms
proof (induction catalog arbitrary: k)
  case Nil
  show ?case by simp
next
  case (Cons product rest)
  then show ?case by (simp add: format_product_spec)
qed

text \<open>
  On a catalog whose available records have a price that is absent (\<open>null\<close>) or a number,
  the export is the text the specification describes, with \<open>toFixed(0)\<close> as the rounding.
\<close>

lemma export_format:
  assumes "list_all (\<lambda>p. isAvailable p \<longrightarrow> price_ok p) (productData s)"
  shows "formatProductDataForSharing js s
           = Inr (spec_export (\<lambda>x. toFixed js x 0) (productData s))"
  using map_throwing_spec [OF assms, of js 0]
  by (simp add: formatProductDataForSharing_def spec_export_def nl_def)

text \<open>
  C3. On the two-record catalog (Pen, 10, available, no note; Cup, no price, unavailable,
  note \<open>chipped\<close>) the export is exactly the expected text. It is not the described text on
  every catalog: for the catalog loaded from the mug, an entry without a \<open>price\<close> key, and
  the pen, the description gives the mug the line \<open>   - Price: N/A\<close>, and the formatter
  throws at the mug instead.
\<close>

theorem export_throws_without_price:
  "map (\<lambda>p. (title p, price p, isAvailable p, note_p p)) (productData example_page)
     = [(''Pen'', Num (Dec 10 0), True, []), (''Cup'', Null, False, ''chipped'')]
   \<and> formatProductDataForSharing decimal_builtins example_page
       = Inr (''--- PRODUCT LIST ---'' @ [CHR 0x0A, CHR 0x0A] @ ''1. Pen'' @ [CHR 0x0A]
          @ ''   - Price: 10 PKR'' @ [CHR 0x0A] @ ''---'' @ [CHR 0x0A] @ ''2. Cup''
          @ [CHR 0x0A] @ ''   - Status: *Not Available*'' @ [CHR 0x0A]
          @ ''   - Note: chipped'' @ [CHR 0x0A, CHR 0x0A] @ ''--- END ---'')
   \<and> map (\<lambda>p. (title p, price p, isAvailable p, note_p p)) (productData mug_page)
       = [(''Mug'', Undefined, True, []), (''Pen'', Num (Dec 10 0), True, [])]
   \<and> spec_export (\<lambda>x. toFixed decimal_builtins x 0) (productData mug_page)
       = ''--- PRODUCT LIST ---'' @ [CHR 0x0A, CHR 0x0A] @ ''1. Mug'' @ [CHR 0x0A]
          @ ''   - Price: N/A'' @ [CHR 0x0A] @ ''---'' @ [CHR 0x0A] @ ''2. Pen''
          @ [CHR 0x0A] @ ''   - Price: 10 PKR'' @ [CHR 0x0A, CHR 0x0A] @ ''--- END ---''
   \<and> formatProductDataForSharing decimal_builtins mug_page = Inl TypeError"
  by code_simp

subsection \<open>Prices that were never given\<close>










subsection \<open>Stale image loads\<close>

lemma untouched_frame:
  assumes "a < length (promises s)" "discarded a s"
    and "promises t = promises s" "productImageEl_onload t = productImageEl_onload s"
        "productImageEl_onerror t = productImageEl_onerror s"
  shows "untouched a s t"
  using assms by (simp add: untouched_def discarded_def)

lemma update_frame:
  "promises (after (updateProductData js b s)) = promises s"
  "productImageEl_onload (after (updateProductData js b s)) = productImageEl_onload s"
  "productImageEl_onerror (after (updateProductData js b s)) = productImageEl_onerror s"
  by (auto simp: updateProductData_def after_def Let_def displayStatusMessage_def
      split: sum.splits)

lemma update_untouched:
  assumes "a < length (promises s)" "discarded a s"
  shows "untouched a s (after (updateProductData js b s))"
  using assms by (intro untouched_frame) (simp_all add: update_frame)

lemma imageLoadPromise_untouched:
  assumes "a < length (promises s)"
  shows "untouched a s (imageLoadPromise product s)"
  using assms
  by (simp add: untouched_def discarded_def imageLoadPromise_def Let_def start_load_def
      register_listeners_def clear_listeners_def nth_append)

lemma showSlide_untouched:
  assumes "a < length (promises s)" "discarded a s"
  shows "untouched a s (after (showSlide js n s))"
proof (cases "showSlide js n s")
  case (Inl es)
  with assms show ?thesis
    by (auto simp: showSlide_def Let_def after_def untouched_def discarded_def
        split: if_splits)
next
  case (Inr t)
  show ?thesis
  proof (cases "productData s = []")
    case True
    with Inr assms show ?thesis by (simp add: showSlide_def after_def untouched_def)
  next
    case False
    with Inr obtain u product where t: "t = imageLoadPromise product u"
      and u: "promises u = promises s"
      by (auto simp: showSlide_def Let_def clearStatusMessage_def split: if_splits)
    from assms(1) u have "untouched a u (imageLoadPromise product u)"
      by (intro imageLoadPromise_untouched) simp
    with t u Inr show ?thesis by (simp add: untouched_def after_def)
  qed
qed

lemma navigateSlide_untouched:
  assumes "a < length (promises s)" "discarded a s"
  shows "untouched a s (after (navigateSlide js n s))"
proof (cases "updateProductData js False s")
  case (Inl es)
  with update_untouched [OF assms, of js False] show ?thesis
    by (simp add: navigateSlide_def)
next
  case (Inr s1)
  with update_untouched [OF assms, of js False] have u: "untouched a s s1"
    by (simp add: after_def)
  let ?s2 = "s1\<lparr>slideIndex := slideIndex s1 + n\<rparr>"
  from u have "untouched a s ?s2" by (simp add: untouched_def discarded_def)
  moreover from this have "untouched a ?s2 (after (showSlide js (slideIndex ?s2) ?s2))"
    by (intro showSlide_untouched) (simp_all add: untouched_def)
  ultimately show ?thesis using Inr
    by (simp add: navigateSlide_def Let_def untouched_def)
qed

lemma settle_untouched:
  assumes "a < length (promises s)" "discarded a s" "promise_of h \<noteq> a"
  shows "untouched a s (settle h s)"
  using assms
  by (cases h)
     (auto simp: untouched_def discarded_def onFulfilled_def onRejected_def
        displayStatusMessage_def)

lemma fire_untouched:
  assumes "a < length (promises s)" "discarded a s"
    and "h = productImageEl_onload s \<or> h = productImageEl_onerror s"
  shows "untouched a s (fire h s)"
proof (cases h)
  case None
  with assms show ?thesis by (simp add: fire_def untouched_def)
next
  case (Some k)
  with assms(2,3) have "promise_of k \<noteq> a" by (auto simp: discarded_def dest: sym)
  from settle_untouched [OF assms(1,2) this] Some show ?thesis by (simp add: fire_def)
qed

lemma copy_untouched:
  assumes "a < length (promises s)" "discarded a s"
  shows "untouched a s (case copyDataToClipboard js s of Inl (e, s1) \<Rightarrow> s1 | Inr (dataToCopy, s1) \<Rightarrow> s1)"
proof -
  have "(case copyDataToClipboard js s of Inl (e, s1) \<Rightarrow> s1 | Inr (dataToCopy, s1) \<Rightarrow> s1)
        = after (updateProductData js False s)"
    by (auto simp: copyDataToClipboard_def after_def split: sum.splits)
  with update_untouched [OF assms, of js False] show ?thesis by simp
qed

lemma step_untouched:
  assumes "a < length (promises s)" "discarded a s"
  shows "untouched a s (step js ev s)"
proof (cases ev)
  case PrevClick
  with navigateSlide_untouched [OF assms] show ?thesis by simp
next
  case NextClick
  with navigateSlide_untouched [OF assms] show ?thesis by simp
next
  case (PriceInput v)
  let ?s = "s\<lparr>productPriceEl_value := v\<rparr>"
  from assms have "untouched a s ?s" by (simp add: untouched_def discarded_def)
  moreover from this have "untouched a ?s (after (updateProductData js True ?s))"
    by (intro update_untouched) (simp_all add: untouched_def)
  ultimately show ?thesis using PriceInput by (simp add: untouched_def)
next
  case (NotAvailableInput b)
  let ?s = "s\<lparr>notAvailableEl_checked := b\<rparr>"
  from assms have "untouched a s ?s" by (simp add: untouched_def discarded_def)
  moreover from this have "untouched a ?s (after (updateProductData js True ?s))"
    by (intro update_untouched) (simp_all add: untouched_def)
  ultimately show ?thesis using NotAvailableInput by (simp add: untouched_def)
next
  case (NoteInput v)
  let ?s = "s\<lparr>additionalNoteEl_value := v\<rparr>"
  from assms have "untouched a s ?s" by (simp add: untouched_def discarded_def)
  moreover from this have "untouched a ?s (after (updateProductData js True ?s))"
    by (intro update_untouched) (simp_all add: untouched_def)
  ultimately show ?thesis using NoteInput by (simp add: untouched_def)
next
  case CopyClick
  with copy_untouched [OF assms] show ?thesis by simp
next
  case (ClipboardSettled written dataToCopy)
  with assms show ?thesis
    by (simp add: copyDataToClipboard_resume_def Let_def displayStatusMessage_def
        untouched_def discarded_def)
next
  case (ImageLoad url)
  with fire_untouched [OF assms, of "productImageEl_onload s"] show ?thesis by simp
next
  case (ImageError url)
  with fire_untouched [OF assms, of "productImageEl_onerror s"] show ?thesis by simp
next
  case (Timeout k)
  with assms show ?thesis
    by (simp add: clearStatusMessage_def untouched_def discarded_def)
qed

lemma run_untouched:
  assumes "a < length (promises s)" "discarded a s"
  shows "untouched a s (run js evs s)"
  using assms
proof (induction evs arbitrary: s)
  case Nil
  then show ?case by (simp add: untouched_def)
next
  case (Cons ev evs)
  from step_untouched [OF Cons.prems] have s: "untouched a s (step js ev s)" .
  then have "untouched a (step js ev s) (run js evs (step js ev s))"
    by (intro Cons.IH) (simp_all add: untouched_def)
  with s show ?case by (simp add: untouched_def)
qed

lemma showSlide_discards:
  assumes "productData s \<noteq> []" "showSlide js n s = Inr s'"
  shows "\<exists>t product. s' = start_load product (register_listeners (length (promises s)) t)
           \<and> productImageEl_onload t = None \<and> productImageEl_onerror t = None
           \<and> promises t = promises s @ [Pending] \<and> imageWrapperEl_loading t"
  using assms
  by (auto simp: showSlide_def Let_def imageLoadPromise_def clear_listeners_def
      clearStatusMessage_def split: if_splits)

text \<open>
  What replacing the listeners achieves. Let a navigation succeed on a non-empty catalog,
  and let \<open>a\<close> be the promise of any load started before it. When the navigation returns,
  neither listener of the image element belongs to \<open>a\<close>: both hold the closures of the
  new, pending promise. From then on, whatever events follow in whatever order (image load
  and error events, clicks, input, clipboard answers, timers), the listeners never belong
  to \<open>a\<close> again and \<open>a\<close> keeps the state it had: it is never settled, so the \<open>then\<close> and
  \<open>catch\<close> callbacks of the stale load never run. The requests are not told apart,
  though: a load or error event that reaches the image element next, whichever request it
  answers, settles the new promise and runs its callback.
\<close>

lemma stale_promise_never_settles:
  assumes "productData s \<noteq> []" "navigateSlide js n s = Inr s'" "a < length (promises s)"
  shows "discarded a s'
     \<and> productImageEl_onload s' = Some (Resolve (length (promises s)))
     \<and> productImageEl_onerror s' = Some (Reject (length (promises s)))
     \<and> promises s' = promises s @ [Pending]
     \<and> imageWrapperEl_loading s'
     \<and> (\<forall>evs. discarded a (run js evs s')
            \<and> promises (run js evs s') ! a = promises s ! a)
     \<and> (\<forall>url. promises (step js (ImageLoad url) s') = promises s @ [Fulfilled]
            \<and> imageWrapperEl_loading (step js (ImageLoad url) s') = False
            \<and> promises (step js (ImageError url) s') = promises s @ [Rejected]
            \<and> imageWrapperEl_loading (step js (ImageError url) s') = False
            \<and> productImageEl_src (step js (ImageError url) s') = placeholder)"
proof -
  from assms(2) obtain s1 where
    u: "updateProductData js False s = Inr s1"
    and sh: "showSlide js (slideIndex s1 + n) (s1\<lparr>slideIndex := slideIndex s1 + n\<rparr>) = Inr s'"
    by (auto simp: navigateSlide_def Let_def split: sum.splits)
  from u update_frame(1) [of js False s] have p1: "promises s1 = promises s"
    by (simp add: after_def)
  from u assms(1) have ne: "productData s1 \<noteq> []"
    by (auto simp: updateProductData_def Let_def displayStatusMessage_def
        split: if_splits sum.splits)
  let ?s2 = "s1\<lparr>slideIndex := slideIndex s1 + n\<rparr>"
  from ne have "productData ?s2 \<noteq> []" by simp
  from showSlide_discards [OF this sh] p1 obtain t product where
    t: "s' = start_load product (register_listeners (length (promises s)) t)"
       "productImageEl_onload t = None" "productImageEl_onerror t = None"
       "promises t = promises s @ [Pending]" "imageWrapperEl_loading t"
    by auto
  from t have h: "productImageEl_onload s' = Some (Resolve (length (promises s)))"
    "productImageEl_onerror s' = Some (Reject (length (promises s)))"
    "promises s' = promises s @ [Pending]" "imageWrapperEl_loading s'"
    by (simp_all add: start_load_def register_listeners_def)
  from h assms(3) have d: "discarded a s'" and l: "a < length (promises s')"
    and k: "promises s' ! a = promises s ! a"
    by (simp_all add: discarded_def nth_append)
  have later: "discarded a (run js evs s') \<and> promises (run js evs s') ! a = promises s ! a"
    for evs
    using run_untouched [OF l d, of js evs] k by (simp add: untouched_def)
  have ev: "promises (step js (ImageLoad url) s') = promises s @ [Fulfilled]
            \<and> imageWrapperEl_loading (step js (ImageLoad url) s') = False
            \<and> promises (step js (ImageError url) s') = promises s @ [Rejected]
            \<and> imageWrapperEl_loading (step js (ImageError url) s') = False
            \<and> productImageEl_src (step js (ImageError url) s') = placeholder" for url
    using h by (simp add: fire_def onFulfilled_def onRejected_def displayStatusMessage_def)
  from d h later ev show ?thesis by blast
qed

text \<open>
  C1. Stale-load suppression fails for an answer that arrives late. The page has loaded
  the pen and the cup; the request for the pen's picture is under way when a click moves
  to the cup, whose request starts. The answer to the pen's request then arrives. A
  successful answer calls the stored \<open>onload\<close> closure, which is the cup's: the cup's
  promise is fulfilled and its spinner is taken away, with the cup's picture not loaded.
  A failed answer calls the stored \<open>onerror\<close> closure: the cup's picture is replaced by
  the placeholder and the warning is shown. The pen's own promise stays pending in both
  cases.
\<close>

theorem late_answer_reaches_new_load:
  "productImageEl_src example_page = ''pen.jpg''
   \<and> promises example_page = [Pending]
   \<and> \<not> isl (navigateSlide decimal_builtins 1 example_page)
   \<and> productImageEl_src (after (navigateSlide decimal_builtins 1 example_page)) = ''cup.jpg''
   \<and> imageWrapperEl_loading (after (navigateSlide decimal_builtins 1 example_page))
   \<and> productImageEl_opacity (after (navigateSlide decimal_builtins 1 example_page)) = None
   \<and> statusMessageEl_textContent (after (navigateSlide decimal_builtins 1 example_page)) = []
   \<and> promises (step decimal_builtins (ImageLoad ''pen.jpg'')
        (after (navigateSlide decimal_builtins 1 example_page))) = [Pending, Fulfilled]
   \<and> imageWrapperEl_loading (step decimal_builtins (ImageLoad ''pen.jpg'')
        (after (navigateSlide decimal_builtins 1 example_page))) = False
   \<and> productImageEl_opacity (step decimal_builtins (ImageLoad ''pen.jpg'')
        (after (navigateSlide decimal_builtins 1 example_page))) = Some 1
   \<and> promises (step decimal_builtins (ImageError ''pen.jpg'')
        (after (navigateSlide decimal_builtins 1 example_page))) = [Pending, Rejected]
   \<and> productImageEl_src (step decimal_builtins (ImageError ''pen.jpg'')
        (after (navigateSlide decimal_builtins 1 example_page))) = placeholder
   \<and> statusMessageEl_textContent (step decimal_builtins (ImageError ''pen.jpg'')
        (after (navigateSlide decimal_builtins 1 example_page))) = ''Image failed to load!''"
  by code_simp

end
